theory Spec2Isabelle
  imports Main "HOL-Library.AList"
begin

section \<open>The parsed document\<close>

text \<open>
  \<open>malware_scrape\<close> in \<^verbatim>\<open>src/app.py\<close> queries a BeautifulSoup tree built by
  \<^verbatim>\<open>html.parser\<close>. The tree is modelled as the parser leaves it: a tag has a name, an
  attribute dictionary and its contents; a text string is a \<open>NavigableString\<close>; a
  comment is a string of its own kind, which the text queries skip. A document (the
  \<open>soup\<close>) is the list of its top-level nodes.

  The attributes of a tag are a dictionary in the parser's tree, so their names are
  distinct; \<open>map_of\<close> reads one. The parser's other kinds of strings (declarations,
  the contents of \<open>script\<close> and \<open>style\<close>) are not modelled.

  Python strings are modelled as \<open>string\<close>, a character being a code point below 256.
\<close>

type_synonym attrs = "(string \<times> string) list"

datatype node =
    Tag string attrs "node list"
  | NavigableString string
  | Comment string

type_synonym soup = "node list"

text \<open>
  Document order: a node, then what it contains, then what follows it. Every query of the
  source (\<open>find\<close>, \<open>find_all\<close>, \<open>find_next\<close>, \<open>get_text\<close>) walks this order.
\<close>

fun elements :: "node \<Rightarrow> node list" where
  "elements (Tag name a contents) = Tag name a contents # concat (map elements contents)"
| "elements (NavigableString s) = [NavigableString s]"
| "elements (Comment s) = [Comment s]"

definition soup_elements :: "soup \<Rightarrow> node list" where
  "soup_elements doc = concat (map elements doc)"

fun descendants :: "node \<Rightarrow> node list" where
  "descendants (Tag name a contents) = concat (map elements contents)"
| "descendants (NavigableString s) = []"
| "descendants (Comment s) = []"

fun tag_attrs :: "node \<Rightarrow> attrs" where
  "tag_attrs (Tag name a contents) = a"
| "tag_attrs (NavigableString s) = []"
| "tag_attrs (Comment s) = []"

fun is_tag :: "string \<Rightarrow> node \<Rightarrow> bool" where
  "is_tag name (Tag m a contents) = (m = name)"
| "is_tag name (NavigableString s) = False"
| "is_tag name (Comment s) = False"

text \<open>\<open>node.find_all(name)\<close>: the tags of that name below the node, in document order.\<close>

definition find_all :: "string \<Rightarrow> node \<Rightarrow> node list" where
  "find_all name n = filter (is_tag name) (descendants n)"

text \<open>\<open>container.find_all("a", href=True)\<close>: the \<open>a\<close> tags that carry an \<open>href\<close>.\<close>

definition find_all_href :: "node \<Rightarrow> node list" where
  "find_all_href n =
     filter (\<lambda>t. is_tag ''a'' t \<and> map_of (tag_attrs t) ''href'' \<noteq> None) (descendants n)"

text \<open>
  \<open>soup.find("a", {"id": section_id})\<close> returns the first matching tag or \<open>None\<close>. The
  tag object knows its place in the tree, which \<open>find_next\<close> starts from; the model
  returns the tag together with the elements after it in document order.
\<close>

definition first_match :: "(node \<Rightarrow> bool) \<Rightarrow> node list \<Rightarrow> (node \<times> node list) option" where
  "first_match P ns =
     (case dropWhile (\<lambda>n. \<not> P n) ns of [] \<Rightarrow> None | n # rest \<Rightarrow> Some (n, rest))"

definition find_anchor :: "soup \<Rightarrow> string \<Rightarrow> (node \<times> node list) option" where
  "find_anchor doc section_id =
     first_match (\<lambda>n. is_tag ''a'' n \<and> map_of (tag_attrs n) ''id'' = Some section_id)
       (soup_elements doc)"

text \<open>\<open>anchor.find_next(name)\<close>, given the elements after the anchor.\<close>

definition find_next :: "string \<Rightarrow> node list \<Rightarrow> node option" where
  "find_next name next_elements = map_option fst (first_match (is_tag name) next_elements)"

section \<open>Text of a node\<close>

text \<open>
  \<open>str.isspace\<close> on the code points below 256: tab to carriage return, the four
  separators before the space, the space, next line (0x85) and the no-break space (0xA0).
\<close>

definition py_isspace :: "char \<Rightarrow> bool" where
  "py_isspace c =
     (let n = (of_char c :: nat)
      in (9 \<le> n \<and> n \<le> 13) \<or> (28 \<le> n \<and> n \<le> 32) \<or> n = 133 \<or> n = 160)"

definition py_strip :: "string \<Rightarrow> string" where
  "py_strip s = rev (dropWhile py_isspace (rev (dropWhile py_isspace s)))"

text \<open>\<open>str.lower\<close> on the code points below 256: A-Z and the Latin-1 capitals.\<close>

definition py_lower_char :: "char \<Rightarrow> char" where
  "py_lower_char c =
     (let n = (of_char c :: nat)
      in if (65 \<le> n \<and> n \<le> 90) \<or> (192 \<le> n \<and> n \<le> 222 \<and> n \<noteq> 215)
         then char_of (n + 32) else c)"

definition py_lower :: "string \<Rightarrow> string" where
  "py_lower s = map py_lower_char s"

fun join :: "string \<Rightarrow> string list \<Rightarrow> string" where
  "join sep [] = []"
| "join sep [s] = s"
| "join sep (s # t # ts) = s @ sep @ join sep (t # ts)"

text \<open>The text strings below a node, in document order; comments are not among them.\<close>

fun node_string :: "node \<Rightarrow> string option" where
  "node_string (NavigableString s) = Some s"
| "node_string (Tag name a contents) = None"
| "node_string (Comment s) = None"

definition all_strings :: "node \<Rightarrow> string list" where
  "all_strings n = List.map_filter node_string (descendants n)"

text \<open>
  \<open>node.get_text(separator, strip=True)\<close>: each text string stripped, the empty ones
  dropped, the rest joined by the separator.
\<close>

definition get_text :: "string \<Rightarrow> node \<Rightarrow> string" where
  "get_text separator n =
     join separator (filter (\<lambda>s. s \<noteq> []) (map py_strip (all_strings n)))"

text \<open>\<open>sub in text\<close> on strings.\<close>

fun contains :: "string \<Rightarrow> string \<Rightarrow> bool" where
  "contains sub [] = (sub = [])"
| "contains sub (c # cs) = (take (length sub) (c # cs) = sub \<or> contains sub cs)"

section \<open>Python dictionaries and the errors the handler can raise\<close>

text \<open>
  A \<open>dict\<close> is an association list in insertion order. \<open>d[k] = v\<close> is
  \<open>AList.update k v d\<close>: it replaces the value of a key that is there, in its place,
  and appends a new key at the end, as Python does. \<open>dict(pairs)\<close> inserts the pairs
  from left to right.
\<close>

type_synonym 'v dict = "(string \<times> 'v) list"

definition py_dict :: "(string \<times> 'v) list \<Rightarrow> 'v dict" where
  "py_dict pairs = fold (\<lambda>(k, v) d. AList.update k v d) pairs []"

text \<open>
  \<open>ParseError\<close> stands for an exception out of \<open>BeautifulSoup(f, "html.parser")\<close>;
  \<open>KeyError\<close> is what \<open>link["href"]\<close> raises on a tag without that attribute;
  \<open>OSError\<close> is what \<open>open\<close> raises on a path that exists and cannot be opened for
  reading (a directory, a file without read permission).
\<close>

datatype error = ParseError | KeyError | OSError

definition getitem :: "attrs \<Rightarrow> string \<Rightarrow> error + string" where
  "getitem a k = (case map_of a k of None \<Rightarrow> Inl KeyError | Some v \<Rightarrow> Inr v)"

section \<open>Tables: \<open>extract_table\<close>\<close>

text \<open>
  Lines 143-149 of \<^verbatim>\<open>src/app.py\<close>, on a table that was found:
  \<^verbatim>\<open>
  headers = [h.get_text(strip=True).lower() for h in table.find_all("th")]
  rows = []
  for tr in table.find_all("tr")[1:]:
      cols = [td.get_text(" ", strip=True) for td in tr.find_all("td")]
      if cols:
          rows.append(dict(zip(headers, cols)))
  return rows
  \<close>
\<close>

definition table_headers :: "node \<Rightarrow> string list" where
  "table_headers table = map (\<lambda>h. py_lower (get_text [] h)) (find_all ''th'' table)"

definition row_cols :: "node \<Rightarrow> string list" where
  "row_cols tr = map (get_text '' '') (find_all ''td'' tr)"

fun collect_rows :: "string list \<Rightarrow> node list \<Rightarrow> string dict list \<Rightarrow> string dict list" where
  "collect_rows headers [] rows = rows"
| "collect_rows headers (tr # trs) rows =
     (let cols = row_cols tr
      in if cols \<noteq> [] then collect_rows headers trs (rows @ [py_dict (zip headers cols)])
         else collect_rows headers trs rows)"

definition table_rows :: "node \<Rightarrow> string dict list" where
  "table_rows table = collect_rows (table_headers table) (drop 1 (find_all ''tr'' table)) []"

text \<open>
  Lines 136-149, the whole closure:
  \<^verbatim>\<open>
  anchor = soup.find("a", {"id": section_id})
  if not anchor: return []
  table = anchor.find_next("table")
  if not table: return []
  \<close>
  A tag is always true in Python (\<open>Tag.__bool__\<close>), so both tests are tests for \<open>None\<close>.
\<close>

definition extract_table :: "soup \<Rightarrow> string \<Rightarrow> string dict list" where
  "extract_table doc section_id =
     (case find_anchor doc section_id of
        None \<Rightarrow> []
      | Some (anchor, next_elements) \<Rightarrow>
          (case find_next ''table'' next_elements of
             None \<Rightarrow> []
           | Some table \<Rightarrow> table_rows table))"

section \<open>Links: the malware-lookup section\<close>

text \<open>
  Lines 157-167, the loop over the links of the container; the dictionary is
  \<open>result["malware_lookup"]\<close>.
\<close>

fun classify_links :: "node list \<Rightarrow> string dict \<Rightarrow> error + string dict" where
  "classify_links [] lookup = Inr lookup"
| "classify_links (link # links) lookup =
     (let text = py_lower (get_text [] link)
      in case getitem (tag_attrs link) ''href'' of
           Inl e \<Rightarrow> Inl e
         | Inr href \<Rightarrow>
             if contains ''virustotal'' text
               then classify_links links (AList.update ''virustotal'' href lookup)
             else if contains ''triage'' text
               then classify_links links (AList.update ''triage'' href lookup)
             else if contains ''metadefender'' text
               then classify_links links (AList.update ''metadefender'' href lookup)
             else if contains ''hybrid'' text
               then classify_links links (AList.update ''hybrid_analysis'' href lookup)
             else classify_links links lookup)"

text \<open>Lines 152-167: the section is looked for, then its container, then the links.\<close>

definition malware_lookup :: "soup \<Rightarrow> error + string dict" where
  "malware_lookup doc =
     (case find_anchor doc ''malware_lookup'' of
        None \<Rightarrow> Inr []
      | Some (malware_section, next_elements) \<Rightarrow>
          (case find_next ''section'' next_elements of
             None \<Rightarrow> Inr []
           | Some container \<Rightarrow> classify_links (find_all_href container) []))"

section \<open>The result and the response\<close>

text \<open>
  \<open>result\<close> is a dictionary whose values are a dictionary of strings (the lookup links)
  or a list of records. Lines 127-134 build it with its six keys, the loop fills
  \<open>malware_lookup\<close>, lines 169-173 assign the five tables.
\<close>

datatype section_value = Lookup "string dict" | Records "string dict list"

definition initial_result :: "section_value dict" where
  "initial_result =
     [(''malware_lookup'', Lookup []),
      (''apkid_analysis'', Records []),
      (''behaviour_analysis'', Records []),
      (''domain_malware_check'', Records []),
      (''urls'', Records []),
      (''emails'', Records [])]"

definition assign_tables :: "soup \<Rightarrow> section_value dict \<Rightarrow> section_value dict" where
  "assign_tables doc result =
     AList.update ''emails'' (Records (extract_table doc ''emails''))
    (AList.update ''urls'' (Records (extract_table doc ''urls''))
    (AList.update ''domain_malware_check'' (Records (extract_table doc ''malware_check''))
    (AList.update ''behaviour_analysis'' (Records (extract_table doc ''behaviour''))
    (AList.update ''apkid_analysis'' (Records (extract_table doc ''apkid'')) result))))"

definition build_result :: "soup \<Rightarrow> error + section_value dict" where
  "build_result doc =
     (case malware_lookup doc of
        Inl e \<Rightarrow> Inl e
      | Inr lookup \<Rightarrow>
          Inr (assign_tables doc (AList.update ''malware_lookup'' (Lookup lookup) initial_result)))"

text \<open>
  \<open>jsonify\<close> turns the Python value into JSON: a dictionary into an object, a list into
  an array, a string into a string. The order in which the provider writes the members of
  an object is not part of the model: the members are kept in the dictionary's order.
\<close>

datatype json = JNull | JString string | JArray "json list" | JObject "(string \<times> json) list"

definition json_of_record :: "string dict \<Rightarrow> json" where
  "json_of_record r = JObject (map (\<lambda>(k, v). (k, JString v)) r)"

fun json_of_section :: "section_value \<Rightarrow> json" where
  "json_of_section (Lookup d) = json_of_record d"
| "json_of_section (Records rs) = JArray (map json_of_record rs)"

definition json_of_result :: "section_value dict \<Rightarrow> json" where
  "json_of_result result = JObject (map (\<lambda>(k, v). (k, json_of_section v)) result)"

text \<open>
  The handler, lines 116-175. Its collaborators are parameters. \<open>reports\<close> is the
  reports directory: what a file name stands for there. \<open>os.path.exists\<close> (line 121) is
  false for \<open>Missing\<close> only; \<open>open\<close> (line 124) raises on \<open>Unopenable\<close>, a path that
  exists and cannot be opened for reading, and gives the file on \<open>Readable\<close>. \<open>parse\<close> is
  \<open>BeautifulSoup(f, "html.parser")\<close> on the file's content, reading and decoding
  included, \<open>None\<close> when it raises. A response is a status code and a JSON body.
\<close>

datatype path_state = Missing | Unopenable | Readable string

datatype response = Response nat json

definition malware_scrape ::
  "(string \<Rightarrow> path_state) \<Rightarrow> (string \<Rightarrow> soup option) \<Rightarrow> string option \<Rightarrow> error + response" where
  "malware_scrape reports parse hash_arg =
     (case hash_arg of
        None \<Rightarrow> Inr (Response 400 (JObject [(''error'', JString ''hash query parameter is required'')]))
      | Some apk_hash \<Rightarrow>
          if apk_hash = []
            then Inr (Response 400 (JObject [(''error'', JString ''hash query parameter is required'')]))
          else
            (case reports (apk_hash @ ''_static_analyzer.html'') of
               Missing \<Rightarrow> Inr (Response 404 (JObject [(''error'', JString ''Static analyzer HTML report not found'')]))
             | Unopenable \<Rightarrow> Inl OSError
             | Readable content \<Rightarrow>
                 (case parse content of
                    None \<Rightarrow> Inl ParseError
                  | Some doc \<Rightarrow>
                      (case build_result doc of
                         Inl e \<Rightarrow> Inl e
                       | Inr result \<Rightarrow>
                           Inr (Response 200
                             (JObject [(''hash'', JString apk_hash),
                                       (''parsed_report'', json_of_result result)]))))))"

section \<open>The stages the specification names\<close>

text \<open>
  The section locator of the specification: the anchor of a section, then the nearest
  following element of the wanted kind. The source does this inline, in \<open>extract_table\<close>
  (lines 137-142) and for the link container (lines 152-155).
\<close>

definition locate :: "soup \<Rightarrow> string \<Rightarrow> string \<Rightarrow> node option" where
  "locate doc anchor_id kind =
     (case find_anchor doc anchor_id of
        None \<Rightarrow> None
      | Some (anchor, next_elements) \<Rightarrow> find_next kind next_elements)"

text \<open>
  The link classifier as the specification words it: an ordered list of keyword and key,
  the first keyword contained in the text deciding the key.
\<close>

definition keyword_keys :: "(string \<times> string) list" where
  "keyword_keys =
     [(''virustotal'', ''virustotal''), (''triage'', ''triage''),
      (''metadefender'', ''metadefender''), (''hybrid'', ''hybrid_analysis'')]"

definition classify :: "string \<Rightarrow> string option" where
  "classify text = map_option snd (List.find (\<lambda>(keyword, key). contains keyword text) keyword_keys)"

definition link_key :: "node \<Rightarrow> string option" where
  "link_key link = classify (py_lower (get_text [] link))"

definition links_of_key :: "string \<Rightarrow> node list \<Rightarrow> node list" where
  "links_of_key key links = filter (\<lambda>link. link_key link = Some key) links"

text \<open>A string without surrounding whitespace.\<close>

definition trimmed :: "string \<Rightarrow> bool" where
  "trimmed s = (s = [] \<or> (\<not> py_isspace (hd s) \<and> \<not> py_isspace (last s)))"

text \<open>
  The minimal document of the specification,
  \<^verbatim>\<open><a id="urls"></a><table><tr><th>URL</th></tr><tr><td> http://x.test </td></tr></table>\<close>,
  as \<^verbatim>\<open>html.parser\<close> builds it (it adds no \<open>html\<close>, \<open>body\<close> or \<open>tbody\<close>).
\<close>

definition minimal_doc :: soup where
  "minimal_doc =
     [Tag ''a'' [(''id'', ''urls'')] [],
      Tag ''table'' []
        [Tag ''tr'' [] [Tag ''th'' [] [NavigableString ''URL'']],
         Tag ''tr'' [] [Tag ''td'' [] [NavigableString '' http://x.test '']]]]"

text \<open>
  The rows of a table that yield at least one data cell: those the loop of lines 145-148
  appends a record for.
\<close>

definition data_rows :: "node \<Rightarrow> node list" where
  "data_rows table = filter (\<lambda>tr. row_cols tr \<noteq> []) (drop 1 (find_all ''tr'' table))"

text \<open>
  The header rule as the specification words it: the header cells of the first row only.
\<close>

definition first_row_headers :: "node \<Rightarrow> string list" where
  "first_row_headers table =
     (case find_all ''tr'' table of
        [] \<Rightarrow> []
      | tr # trs \<Rightarrow> map (\<lambda>h. py_lower (get_text [] h)) (find_all ''th'' tr))"

text \<open>
  Whitespace normalisation as the specification words it: surrounding whitespace trimmed,
  every internal run of whitespace collapsed to one space.
\<close>

fun collapse_runs :: "string \<Rightarrow> string" where
  "collapse_runs [] = []"
| "collapse_runs [c] = [if py_isspace c then CHR '' '' else c]"
| "collapse_runs (c # d # cs) =
     (if py_isspace c
      then (if py_isspace d then collapse_runs (d # cs) else CHR '' '' # collapse_runs (d # cs))
      else c # collapse_runs (d # cs))"

definition normalize_whitespace :: "string \<Rightarrow> string" where
  "normalize_whitespace s = collapse_runs (py_strip s)"

text \<open>Documents the theorems below are evaluated on.\<close>

text \<open>A table whose second row carries a header cell next to its data cells.\<close>

definition header_rows_doc :: soup where
  "header_rows_doc =
     [Tag ''a'' [(''id'', ''urls'')] [],
      Tag ''table'' []
        [Tag ''tr'' [] [Tag ''th'' [] [NavigableString ''Name'']],
         Tag ''tr'' []
           [Tag ''th'' [] [NavigableString ''Extra''],
            Tag ''td'' [] [NavigableString ''x''],
            Tag ''td'' [] [NavigableString ''y'']]]]"

text \<open>
  A table with a short row, a long row, a row without cells, and two rows of equal
  content.
\<close>

definition ragged_doc :: soup where
  "ragged_doc =
     [Tag ''a'' [(''id'', ''urls'')] [],
      Tag ''table'' []
        [Tag ''tr'' [] [Tag ''th'' [] [NavigableString '' Name ''], Tag ''th'' [] [NavigableString ''URL'']],
         Tag ''tr'' [] [Tag ''td'' [] [NavigableString ''a'']],
         Tag ''tr'' []
           [Tag ''td'' [] [NavigableString ''b''], Tag ''td'' [] [NavigableString ''u''],
            Tag ''td'' [] [NavigableString ''extra'']],
         Tag ''tr'' [] [],
         Tag ''tr'' [] [Tag ''td'' [] [NavigableString ''b''], Tag ''td'' [] [NavigableString ''u'']]]]"

text \<open>A table without header cells.\<close>

definition headerless_doc :: soup where
  "headerless_doc =
     [Tag ''a'' [(''id'', ''emails'')] [],
      Tag ''table'' []
        [Tag ''tr'' [] [Tag ''td'' [] [NavigableString ''first'']],
         Tag ''tr'' [] [Tag ''td'' [] [NavigableString ''x''], Tag ''td'' [] [NavigableString ''y'']],
         Tag ''tr'' [] [],
         Tag ''tr'' [] [Tag ''td'' [] [NavigableString ''z'']]]]"

text \<open>The minimal document with two spaces inside the cell text.\<close>

definition inner_spaces_doc :: soup where
  "inner_spaces_doc =
     [Tag ''a'' [(''id'', ''urls'')] [],
      Tag ''table'' []
        [Tag ''tr'' [] [Tag ''th'' [] [NavigableString ''URL'']],
         Tag ''tr'' [] [Tag ''td'' [] [NavigableString '' a  b '']]]]"


section \<open>Lemmas on the building blocks\<close>

lemma extract_table_locate:
  "extract_table doc section_id =
     (case locate doc section_id ''table'' of None \<Rightarrow> [] | Some table \<Rightarrow> table_rows table)"
  by (simp add: extract_table_def locate_def split: option.splits)

lemma collect_rows_eq:
  "collect_rows headers trs rows =
     rows @ map (\<lambda>tr. py_dict (zip headers (row_cols tr))) (filter (\<lambda>tr. row_cols tr \<noteq> []) trs)"
  by (induction trs arbitrary: rows) (simp_all add: Let_def)

lemma table_rows_eq:
  "table_rows table =
     map (\<lambda>tr. py_dict (zip (table_headers table) (row_cols tr)))
       (filter (\<lambda>tr. row_cols tr \<noteq> []) (drop 1 (find_all ''tr'' table)))"
  by (simp add: table_rows_def collect_rows_eq)

lemma map_of_fold_update:
  "map_of (fold (\<lambda>(k, v) d. AList.update k v d) pairs d) = map_of d ++ map_of (rev pairs)"
  by (induction pairs arbitrary: d) (auto simp: update_conv' map_add_upd_left fun_eq_iff map_add_def split: option.splits)

lemma map_of_py_dict: "map_of (py_dict pairs) = map_of (rev pairs)"
  by (simp add: py_dict_def map_of_fold_update)

lemma keys_fold_update:
  "fst ` set (fold (\<lambda>(k, v) d. AList.update k v d) pairs d) = fst ` set d \<union> fst ` set pairs"
proof (induction pairs arbitrary: d)
  case Nil
  then show ?case by simp
next
  case (Cons p pairs)
  obtain k v where p: "p = (k, v)" by (cases p)
  have "fst ` set (AList.update k v d) = insert k (fst ` set d)"
    by (induction d) auto
  then show ?case using Cons.IH [of "AList.update k v d"] by (auto simp: p)
qed

lemma keys_py_dict: "fst ` set (py_dict pairs) = fst ` set pairs"
  by (simp add: py_dict_def keys_fold_update)

lemma distinct_fold_update:
  "distinct (map fst d) \<Longrightarrow> distinct (map fst (fold (\<lambda>(k, v) d. AList.update k v d) pairs d))"
  by (induction pairs arbitrary: d) (auto simp: distinct_update)

lemma distinct_py_dict: "distinct (map fst (py_dict pairs))"
  by (simp add: py_dict_def distinct_fold_update)

lemma update_fresh: "k \<notin> fst ` set d \<Longrightarrow> AList.update k v d = d @ [(k, v)]"
  by (induction d) auto

lemma fold_update_distinct:
  "distinct (map fst pairs) \<Longrightarrow> fst ` set d \<inter> fst ` set pairs = {} \<Longrightarrow>
     fold (\<lambda>(k, v) d. AList.update k v d) pairs d = d @ pairs"
proof (induction pairs arbitrary: d)
  case Nil
  then show ?case by simp
next
  case (Cons p pairs)
  obtain k v where p: "p = (k, v)" by (cases p)
  from Cons.prems have fresh: "k \<notin> fst ` set d" by (auto simp: p)
  have "fst ` set (d @ [(k, v)]) \<inter> fst ` set pairs = {}"
    using Cons.prems by (auto simp: p)
  moreover have "distinct (map fst pairs)" using Cons.prems by simp
  ultimately show ?case
    using Cons.IH [of "d @ [(k, v)]"] by (simp add: p update_fresh [OF fresh])
qed

lemma py_dict_distinct: "distinct (map fst pairs) \<Longrightarrow> py_dict pairs = pairs"
  by (simp add: py_dict_def fold_update_distinct)

lemma of_char_lower:
  "(of_char (py_lower_char c) :: nat) =
     (let n = of_char c in
      if (65 \<le> n \<and> n \<le> 90) \<or> (192 \<le> n \<and> n \<le> 222 \<and> n \<noteq> 215) then n + 32 else n)"
  by (auto simp: py_lower_char_def Let_def)

lemma py_isspace_lower: "py_isspace (py_lower_char c) = py_isspace c"
  unfolding py_isspace_def of_char_lower by (auto simp: Let_def)

lemma py_lower_char_idem: "py_lower_char (py_lower_char c) = py_lower_char c"
proof -
  have "(of_char (py_lower_char (py_lower_char c)) :: nat) = of_char (py_lower_char c)"
    unfolding of_char_lower [of "py_lower_char c"] by (auto simp: of_char_lower Let_def)
  then show ?thesis by simp
qed

lemma py_lower_idem: "py_lower (py_lower s) = py_lower s"
  by (simp add: py_lower_def py_lower_char_idem)

lemma py_strip_lower: "py_strip (py_lower s) = py_lower (py_strip s)"
proof -
  have "py_isspace \<circ> py_lower_char = py_isspace" by (simp add: fun_eq_iff py_isspace_lower)
  then show ?thesis
    by (simp add: py_strip_def py_lower_def rev_map dropWhile_map)
qed

lemma last_dropWhile_ne: "dropWhile P xs \<noteq> [] \<Longrightarrow> last (dropWhile P xs) = last xs"
  by (metis last_appendR takeWhile_dropWhile_id)

lemma trimmed_py_strip: "trimmed (py_strip s)"
proof -
  let ?t = "dropWhile py_isspace s"
  let ?u = "dropWhile py_isspace (rev ?t)"
  show ?thesis
  proof (cases "?u = []")
    case True
    then show ?thesis by (simp add: trimmed_def py_strip_def)
  next
    case False
    have t: "?t \<noteq> []"
    proof
      assume "?t = []"
      then have "?u = []" by (simp only: rev.simps dropWhile.simps)
      with False show False by contradiction
    qed
    have "last ?u = last (rev ?t)" using False by (rule last_dropWhile_ne)
    also have "\<dots> = hd ?t" using t by (simp add: last_rev)
    finally have "\<not> py_isspace (last ?u)" using hd_dropWhile [OF t] by simp
    moreover have "\<not> py_isspace (hd ?u)" using False by (rule hd_dropWhile)
    ultimately show ?thesis using False by (simp add: trimmed_def py_strip_def hd_rev last_rev)
  qed
qed

lemma py_strip_trimmed: "trimmed s \<Longrightarrow> py_strip s = s"
proof (cases "s = []")
  case True
  then show ?thesis by (simp add: py_strip_def)
next
  case False
  assume "trimmed s"
  with False have h: "\<not> py_isspace (hd s)" and l: "\<not> py_isspace (last s)"
    by (simp_all add: trimmed_def)
  have 1: "dropWhile py_isspace s = s" using h by (simp add: dropWhile_eq_self_iff)
  have 2: "dropWhile py_isspace (rev s) = rev s"
    using l False by (simp add: dropWhile_eq_self_iff hd_rev)
  show ?thesis by (simp add: py_strip_def 1 2)
qed

lemma py_strip_fixed: "py_strip s = s \<longleftrightarrow> trimmed s"
  using trimmed_py_strip [of s] py_strip_trimmed [of s] by auto

lemma py_strip_idem: "py_strip (py_strip s) = py_strip s"
  by (rule py_strip_trimmed) (rule trimmed_py_strip)

lemma hd_join: "ps \<noteq> [] \<Longrightarrow> hd ps \<noteq> [] \<Longrightarrow> hd (join sep ps) = hd (hd ps)"
  by (induction sep ps rule: join.induct) auto

lemma join_Nil_iff: "\<forall>p \<in> set ps. p \<noteq> [] \<Longrightarrow> join sep ps = [] \<longleftrightarrow> ps = []"
  by (induction sep ps rule: join.induct) auto

lemma last_join:
  "ps \<noteq> [] \<Longrightarrow> \<forall>p \<in> set ps. p \<noteq> [] \<Longrightarrow> last (join sep ps) = last (last ps)"
proof (induction sep ps rule: join.induct)
  case (3 sep s t ts)
  then have "join sep (t # ts) \<noteq> []" using join_Nil_iff [of "t # ts" sep] by simp
  with 3 show ?case by simp
qed simp_all

lemma trimmed_join:
  assumes "\<forall>p \<in> set ps. p \<noteq> [] \<and> trimmed p"
  shows "trimmed (join sep ps)"
proof (cases "ps = []")
  case True
  then show ?thesis by (simp add: trimmed_def)
next
  case False
  with assms have "hd ps \<in> set ps" "last ps \<in> set ps" by simp_all
  with assms have "hd ps \<noteq> []" "trimmed (hd ps)" "last ps \<noteq> []" "trimmed (last ps)" by blast+
  moreover have "hd (join sep ps) = hd (hd ps)" using False \<open>hd ps \<noteq> []\<close> by (rule hd_join)
  moreover have "last (join sep ps) = last (last ps)" using False assms by (simp add: last_join)
  ultimately show ?thesis by (simp add: trimmed_def)
qed

lemma trimmed_get_text: "trimmed (get_text sep n)"
  unfolding get_text_def by (rule trimmed_join) (auto simp: trimmed_py_strip)

lemma py_strip_get_text: "py_strip (get_text sep n) = get_text sep n"
  by (rule py_strip_trimmed) (rule trimmed_get_text)

lemma contains_iff: "contains sub s \<longleftrightarrow> (\<exists>us vs. s = us @ sub @ vs)"
proof (induction s)
  case Nil
  then show ?case by auto
next
  case (Cons c cs)
  have pre: "take (length sub) (c # cs) = sub \<longleftrightarrow> (\<exists>vs. c # cs = sub @ vs)"
    by (metis append_eq_conv_conj)
  show ?case
  proof
    assume "contains sub (c # cs)"
    then consider "take (length sub) (c # cs) = sub" | "contains sub cs" by auto
    then show "\<exists>us vs. c # cs = us @ sub @ vs"
    proof cases
      case 1
      then obtain vs where "c # cs = sub @ vs" using pre by blast
      then have "c # cs = [] @ sub @ vs" by simp
      then show ?thesis by blast
    next
      case 2
      then obtain us vs where "cs = us @ sub @ vs" using Cons.IH by blast
      then have "c # cs = (c # us) @ sub @ vs" by simp
      then show ?thesis by blast
    qed
  next
    assume "\<exists>us vs. c # cs = us @ sub @ vs"
    then obtain us vs where eq: "c # cs = us @ sub @ vs" by blast
    show "contains sub (c # cs)"
    proof (cases us)
      case Nil
      with eq have "c # cs = sub @ vs" by simp
      then have "take (length sub) (c # cs) = sub" using pre by blast
      then show ?thesis by (simp only: contains.simps) blast
    next
      case (Cons b bs)
      with eq have "cs = bs @ sub @ vs" by simp
      then show ?thesis using Cons.IH by auto
    qed
  qed
qed

lemma classify_links_step:
  assumes "map_of (tag_attrs link) ''href'' = Some href"
  shows "classify_links (link # links) lookup =
           classify_links links
             (case link_key link of None \<Rightarrow> lookup | Some key \<Rightarrow> AList.update key href lookup)"
  using assms
  by (simp add: getitem_def link_key_def classify_def keyword_keys_def Let_def)

lemma classify_links_last_wins:
  assumes "\<forall>link \<in> set links. map_of (tag_attrs link) ''href'' \<noteq> None"
  shows "\<exists>result. classify_links links lookup = Inr result \<and>
           (\<forall>key. map_of result key =
              (case links_of_key key links of
                 [] \<Rightarrow> map_of lookup key
               | l # ls \<Rightarrow> map_of (tag_attrs (last (l # ls))) ''href''))"
  using assms
proof (induction links arbitrary: lookup)
  case Nil
  then show ?case by (simp add: links_of_key_def)
next
  case (Cons link links)
  then obtain href where href: "map_of (tag_attrs link) ''href'' = Some href" by auto
  define lookup' where
    "lookup' = (case link_key link of None \<Rightarrow> lookup | Some key \<Rightarrow> AList.update key href lookup)"
  have step: "classify_links (link # links) lookup = classify_links links lookup'"
    unfolding lookup'_def using href by (rule classify_links_step)
  from Cons.prems have "\<forall>l \<in> set links. map_of (tag_attrs l) ''href'' \<noteq> None" by simp
  from Cons.IH [OF this, of lookup'] obtain result where
    res: "classify_links links lookup' = Inr result" and
    look: "\<And>key. map_of result key =
              (case links_of_key key links of
                 [] \<Rightarrow> map_of lookup' key
               | l # ls \<Rightarrow> map_of (tag_attrs (last (l # ls))) ''href'')"
    by blast
  have "map_of result key =
          (case links_of_key key (link # links) of
             [] \<Rightarrow> map_of lookup key
           | l # ls \<Rightarrow> map_of (tag_attrs (last (l # ls))) ''href'')" for key
  proof (cases "link_key link = Some key")
    case True
    then have "map_of lookup' key = Some href" by (simp add: lookup'_def update_conv')
    with True show ?thesis
      using look [of key] href by (simp add: links_of_key_def split: list.splits)
  next
    case False
    then have "map_of lookup' key = map_of lookup key"
      by (auto simp: lookup'_def update_conv' split: option.splits)
    with False show ?thesis using look [of key] by (simp add: links_of_key_def split: list.splits)
  qed
  with step res show ?case by auto
qed

lemma find_all_href_has_href:
  "\<forall>link \<in> set (find_all_href container). map_of (tag_attrs link) ''href'' \<noteq> None"
  by (simp add: find_all_href_def)

lemma malware_lookup_locate:
  "malware_lookup doc =
     (case locate doc ''malware_lookup'' ''section'' of
        None \<Rightarrow> Inr []
      | Some container \<Rightarrow> classify_links (find_all_href container) [])"
  by (simp add: malware_lookup_def locate_def split: option.splits)

lemma malware_lookup_total: "\<exists>lookup. malware_lookup doc = Inr lookup"
proof (cases "locate doc ''malware_lookup'' ''section''")
  case None
  then show ?thesis by (simp add: malware_lookup_locate)
next
  case (Some container)
  then show ?thesis
    using classify_links_last_wins [OF find_all_href_has_href, of container "[]"]
    by (auto simp: malware_lookup_locate)
qed

lemma assign_tables_initial:
  "assign_tables doc (AList.update ''malware_lookup'' (Lookup lookup) initial_result) =
     [(''malware_lookup'', Lookup lookup),
      (''apkid_analysis'', Records (extract_table doc ''apkid'')),
      (''behaviour_analysis'', Records (extract_table doc ''behaviour'')),
      (''domain_malware_check'', Records (extract_table doc ''malware_check'')),
      (''urls'', Records (extract_table doc ''urls'')),
      (''emails'', Records (extract_table doc ''emails''))]"
  by (simp add: assign_tables_def initial_result_def)

lemma build_result_eq:
  "malware_lookup doc = Inr lookup \<Longrightarrow>
   build_result doc =
     Inr [(''malware_lookup'', Lookup lookup),
          (''apkid_analysis'', Records (extract_table doc ''apkid'')),
          (''behaviour_analysis'', Records (extract_table doc ''behaviour'')),
          (''domain_malware_check'', Records (extract_table doc ''malware_check'')),
          (''urls'', Records (extract_table doc ''urls'')),
          (''emails'', Records (extract_table doc ''emails''))]"
  by (simp add: build_result_def assign_tables_initial)

lemma extract_table_absent:
  "locate doc section_id ''table'' = None \<Longrightarrow> extract_table doc section_id = []"
  by (simp add: extract_table_locate)

lemma malware_lookup_absent:
  "locate doc ''malware_lookup'' ''section'' = None \<Longrightarrow> malware_lookup doc = Inr []"
  by (simp add: malware_lookup_locate)

lemma locate_None_iff:
  "locate doc anchor_id kind = None \<longleftrightarrow>
     find_anchor doc anchor_id = None \<or>
     (\<exists>anchor next_elements.
        find_anchor doc anchor_id = Some (anchor, next_elements) \<and>
        find_next kind next_elements = None)"
  by (auto simp: locate_def split: option.splits)

lemma json_of_result_six:
  "json_of_result
     [(''malware_lookup'', Lookup lookup),
      (''apkid_analysis'', Records apkid),
      (''behaviour_analysis'', Records behaviour),
      (''domain_malware_check'', Records domain),
      (''urls'', Records urls),
      (''emails'', Records emails)] =
   JObject
     [(''malware_lookup'', JObject (map (\<lambda>(k, v). (k, JString v)) lookup)),
      (''apkid_analysis'', JArray (map json_of_record apkid)),
      (''behaviour_analysis'', JArray (map json_of_record behaviour)),
      (''domain_malware_check'', JArray (map json_of_record domain)),
      (''urls'', JArray (map json_of_record urls)),
      (''emails'', JArray (map json_of_record emails))]"
  by (simp add: json_of_result_def json_of_record_def)

lemma malware_scrape_parsed:
  assumes "apk_hash \<noteq> []"
    and "reports (apk_hash @ ''_static_analyzer.html'') = Readable content"
    and "parse content = Some doc"
    and "build_result doc = Inr result"
  shows "malware_scrape reports parse (Some apk_hash) =
           Inr (Response 200
             (JObject [(''hash'', JString apk_hash), (''parsed_report'', json_of_result result)]))"
  using assms by (simp add: malware_scrape_def)

lemma extract_table_located:
  "locate doc section_id ''table'' = Some table \<Longrightarrow>
   extract_table doc section_id =
     map (\<lambda>tr. py_dict (zip (table_headers table) (row_cols tr))) (data_rows table)"
  by (simp add: extract_table_locate table_rows_eq data_rows_def)

lemma extract_table_record:
  assumes "r \<in> set (extract_table doc section_id)"
  shows "\<exists>table tr. locate doc section_id ''table'' = Some table \<and> tr \<in> set (data_rows table) \<and>
           r = py_dict (zip (table_headers table) (row_cols tr))"
proof (cases "locate doc section_id ''table''")
  case None
  with assms show ?thesis by (simp add: extract_table_absent)
next
  case (Some table)
  with assms show ?thesis by (auto simp: extract_table_located)
qed

lemma py_dict_entries: "set (py_dict pairs) \<subseteq> set pairs"
proof
  fix p
  assume p: "p \<in> set (py_dict pairs)"
  obtain k v where kv: "p = (k, v)" by (cases p)
  from p have "map_of (py_dict pairs) k = Some v"
    using distinct_py_dict [of pairs] by (simp add: kv)
  then have "map_of (rev pairs) k = Some v" by (simp add: map_of_py_dict)
  then have "(k, v) \<in> set (rev pairs)" by (rule map_of_SomeD)
  then show "p \<in> set pairs" by (simp add: kv)
qed

lemma keys_py_dict_zip:
  "fst ` set (py_dict (zip headers cols)) = set (take (length cols) headers)"
proof -
  have "fst ` set (zip headers cols) = set (map fst (zip headers cols))" by simp
  also have "\<dots> = set (take (length cols) headers)"
    by (simp only: map_fst_zip_take) (simp add: min_def)
  finally show ?thesis by (simp add: keys_py_dict)
qed

lemma zip_shorter:
  "zip xs ys = zip (take (min (length xs) (length ys)) xs) (take (min (length xs) (length ys)) ys)"
  by (simp add: take_zip [symmetric])

lemma table_headers_by_rows:
  "table_headers (Tag name a rows) =
     concat (map (\<lambda>row. map (\<lambda>h. py_lower (get_text [] h)) (filter (is_tag ''th'') (elements row))) rows)"
  by (simp add: table_headers_def find_all_def filter_concat map_concat comp_def)

lemma table_header_clean:
  assumes "name \<in> set (table_headers table)"
  shows "py_lower name = name \<and> py_strip name = name"
proof -
  from assms obtain h where "name = py_lower (get_text [] h)"
    by (auto simp: table_headers_def)
  then show ?thesis by (simp add: py_lower_idem py_strip_lower py_strip_get_text)
qed

lemma collect_rows_skip:
  "row_cols tr = [] \<Longrightarrow>
   collect_rows headers (before @ tr # rest) rows = collect_rows headers (before @ rest) rows"
  by (simp add: collect_rows_eq)

lemma get_text_single: "get_text sep (Tag name a [NavigableString s]) = py_strip s"
  by (simp add: get_text_def all_strings_def List.map_filter_simps)

section \<open>The result always has its six keys\<close>

text \<open>
  Claim C1. For every document, \<open>build_result\<close> returns a result, never an error, and the
  result has the six keys \<open>malware_lookup\<close>, \<open>apkid_analysis\<close>, \<open>behaviour_analysis\<close>,
  \<open>domain_malware_check\<close>, \<open>urls\<close> and \<open>emails\<close>, each with a dictionary or a list as its
  value. Where the anchor of a section, or the table (for the links: the container) after
  it, is not found, the value is the empty dictionary for \<open>malware_lookup\<close> and the
  empty list for a table section.
\<close>

theorem build_result_all_keys:
  "\<exists>lookup.
     build_result doc =
       Inr [(''malware_lookup'', Lookup lookup),
            (''apkid_analysis'', Records (extract_table doc ''apkid'')),
            (''behaviour_analysis'', Records (extract_table doc ''behaviour'')),
            (''domain_malware_check'', Records (extract_table doc ''malware_check'')),
            (''urls'', Records (extract_table doc ''urls'')),
            (''emails'', Records (extract_table doc ''emails''))] \<and>
     (locate doc ''malware_lookup'' ''section'' = None \<longrightarrow> lookup = []) \<and>
     (\<forall>section_id. locate doc section_id ''table'' = None \<longrightarrow> extract_table doc section_id = [])"
proof -
  obtain lookup where l: "malware_lookup doc = Inr lookup"
    using malware_lookup_total by blast
  have "locate doc ''malware_lookup'' ''section'' = None \<longrightarrow> lookup = []"
    using l by (auto dest: malware_lookup_absent)
  with build_result_eq [OF l] show ?thesis
    by (intro exI [of _ lookup] conjI allI impI extract_table_absent) simp_all
qed

theorem build_result_all_keys_witness:
  "locate minimal_doc ''malware_lookup'' ''section'' = None \<and>
   locate minimal_doc ''behaviour'' ''table'' = None \<and>
   build_result minimal_doc =
     Inr [(''malware_lookup'', Lookup []),
          (''apkid_analysis'', Records []),
          (''behaviour_analysis'', Records []),
          (''domain_malware_check'', Records []),
          (''urls'', Records [[(''url'', ''http://x.test'')]]),
          (''emails'', Records [])]"
proof -
  have links: "locate minimal_doc ''malware_lookup'' ''section'' = None" by code_simp
  have apkid: "locate minimal_doc ''apkid'' ''table'' = None" by code_simp
  have behaviour: "locate minimal_doc ''behaviour'' ''table'' = None" by code_simp
  have domain: "locate minimal_doc ''malware_check'' ''table'' = None" by code_simp
  have emails: "locate minimal_doc ''emails'' ''table'' = None" by code_simp
  have urls: "extract_table minimal_doc ''urls'' = [[(''url'', ''http://x.test'')]]" by code_simp
  from build_result_all_keys [of minimal_doc] links apkid behaviour domain emails urls
  show ?thesis by auto
qed

section \<open>The serialized report\<close>

text \<open>
  Claim C2. The report the handler serializes is a JSON object with exactly the members
  \<open>malware_lookup\<close>, \<open>apkid_analysis\<close>, \<open>behaviour_analysis\<close>, \<open>domain_malware_check\<close>,
  \<open>urls\<close> and \<open>emails\<close>: the first an object, the other five arrays, none of them null,
  and a section that is not located is the empty object or the empty array. The response
  of the handler carries this object as its member \<open>parsed_report\<close>, beside \<open>hash\<close>.
\<close>

theorem parsed_report_json:
  "\<exists>result lookup apkid behaviour domain urls emails.
     build_result doc = Inr result \<and>
     json_of_result result =
       JObject
         [(''malware_lookup'', JObject lookup),
          (''apkid_analysis'', JArray apkid),
          (''behaviour_analysis'', JArray behaviour),
          (''domain_malware_check'', JArray domain),
          (''urls'', JArray urls),
          (''emails'', JArray emails)] \<and>
     (locate doc ''malware_lookup'' ''section'' = None \<longrightarrow> lookup = []) \<and>
     (locate doc ''apkid'' ''table'' = None \<longrightarrow> apkid = []) \<and>
     (locate doc ''behaviour'' ''table'' = None \<longrightarrow> behaviour = []) \<and>
     (locate doc ''malware_check'' ''table'' = None \<longrightarrow> domain = []) \<and>
     (locate doc ''urls'' ''table'' = None \<longrightarrow> urls = []) \<and>
     (locate doc ''emails'' ''table'' = None \<longrightarrow> emails = []) \<and>
     (\<forall>reports parse apk_hash content.
        apk_hash \<noteq> [] \<longrightarrow>
        reports (apk_hash @ ''_static_analyzer.html'') = Readable content \<longrightarrow>
        parse content = Some doc \<longrightarrow>
        malware_scrape reports parse (Some apk_hash) =
          Inr (Response 200
            (JObject [(''hash'', JString apk_hash),
                      (''parsed_report'', json_of_result result)])))"
proof -
  obtain l where l: "malware_lookup doc = Inr l"
    using malware_lookup_total by blast
  let ?result = "[(''malware_lookup'', Lookup l),
          (''apkid_analysis'', Records (extract_table doc ''apkid'')),
          (''behaviour_analysis'', Records (extract_table doc ''behaviour'')),
          (''domain_malware_check'', Records (extract_table doc ''malware_check'')),
          (''urls'', Records (extract_table doc ''urls'')),
          (''emails'', Records (extract_table doc ''emails''))]"
  have b: "build_result doc = Inr ?result" using l by (rule build_result_eq)
  have e: "locate doc ''malware_lookup'' ''section'' = None \<longrightarrow> l = []"
    using l by (auto dest: malware_lookup_absent)
  have s: "\<forall>reports parse apk_hash content.
        apk_hash \<noteq> [] \<longrightarrow>
        reports (apk_hash @ ''_static_analyzer.html'') = Readable content \<longrightarrow>
        parse content = Some doc \<longrightarrow>
        malware_scrape reports parse (Some apk_hash) =
          Inr (Response 200
            (JObject [(''hash'', JString apk_hash),
                      (''parsed_report'', json_of_result ?result)]))"
    using malware_scrape_parsed [OF _ _ _ b] by blast
  show ?thesis
    apply (rule exI [of _ ?result])
    apply (rule exI [of _ "map (\<lambda>(k, v). (k, JString v)) l"])
    apply (rule exI [of _ "map json_of_record (extract_table doc ''apkid'')"])
    apply (rule exI [of _ "map json_of_record (extract_table doc ''behaviour'')"])
    apply (rule exI [of _ "map json_of_record (extract_table doc ''malware_check'')"])
    apply (rule exI [of _ "map json_of_record (extract_table doc ''urls'')"])
    apply (rule exI [of _ "map json_of_record (extract_table doc ''emails'')"])
    apply (intro conjI)
            apply (rule b)
           apply (rule json_of_result_six)
          apply (simp add: e)
         apply (simp add: extract_table_absent)
        apply (simp add: extract_table_absent)
       apply (simp add: extract_table_absent)
      apply (simp add: extract_table_absent)
     apply (simp add: extract_table_absent)
    apply (rule s)
    done
qed

theorem parsed_report_json_witness:
  "malware_scrape
     (\<lambda>name. if name = ''h1_static_analyzer.html'' then Readable ''minimal'' else Missing)
     (\<lambda>content. Some minimal_doc) (Some ''h1'') =
   Inr (Response 200
     (JObject
        [(''hash'', JString ''h1''),
         (''parsed_report'',
          JObject
            [(''malware_lookup'', JObject []),
             (''apkid_analysis'', JArray []),
             (''behaviour_analysis'', JArray []),
             (''domain_malware_check'', JArray []),
             (''urls'', JArray [JObject [(''url'', JString ''http://x.test'')]]),
             (''emails'', JArray [])])]))"
proof -
  let ?reports = "\<lambda>name. if name = ''h1_static_analyzer.html'' then Readable ''minimal'' else Missing"
  let ?parse = "\<lambda>content :: string. Some minimal_doc"
  from parsed_report_json [of minimal_doc] obtain result where
    b: "build_result minimal_doc = Inr result" and
    s: "\<forall>reports parse apk_hash content.
        apk_hash \<noteq> [] \<longrightarrow>
        reports (apk_hash @ ''_static_analyzer.html'') = Readable content \<longrightarrow>
        parse content = Some minimal_doc \<longrightarrow>
        malware_scrape reports parse (Some apk_hash) =
          Inr (Response 200
            (JObject [(''hash'', JString apk_hash),
                      (''parsed_report'', json_of_result result)]))"
    by blast
  have "build_result minimal_doc =
     Inr [(''malware_lookup'', Lookup []),
          (''apkid_analysis'', Records []),
          (''behaviour_analysis'', Records []),
          (''domain_malware_check'', Records []),
          (''urls'', Records [[(''url'', ''http://x.test'')]]),
          (''emails'', Records [])]"
    by code_simp
  with b have r: "json_of_result result =
          JObject
            [(''malware_lookup'', JObject []),
             (''apkid_analysis'', JArray []),
             (''behaviour_analysis'', JArray []),
             (''domain_malware_check'', JArray []),
             (''urls'', JArray [JObject [(''url'', JString ''http://x.test'')]]),
             (''emails'', JArray [])]"
    by (auto simp: json_of_result_def json_of_record_def)
  have "malware_scrape ?reports ?parse (Some ''h1'') =
          Inr (Response 200
            (JObject [(''hash'', JString ''h1''), (''parsed_report'', json_of_result result)]))"
    using s [rule_format, of "''h1''" ?reports "''minimal''" ?parse] by simp
  with r show ?thesis by simp
qed

section \<open>Failure of the extraction\<close>

text \<open>
  Claim C3, as amended. Once the report file is open, the handler raises exactly when
  the parser raises on its content, and then nothing of a result is returned; after
  parsing no step fails (\<open>link["href"]\<close> is only read on links that carry the
  attribute). The one other exception of the handler comes from the file layer: a report
  path that exists and cannot be opened makes \<open>open\<close> raise. A request without hash or
  for a missing report is answered with a response, not an exception. Which contents the
  parser rejects is the parser's matter; the empty content is not one of them.
\<close>

theorem malware_scrape_failure:
  "malware_scrape reports parse hash_arg = Inl e \<longleftrightarrow>
     (\<exists>apk_hash.
        hash_arg = Some apk_hash \<and> apk_hash \<noteq> [] \<and>
        (reports (apk_hash @ ''_static_analyzer.html'') = Unopenable \<and> e = OSError \<or>
         (\<exists>content.
            reports (apk_hash @ ''_static_analyzer.html'') = Readable content \<and>
            parse content = None \<and> e = ParseError)))"
proof -
  have ok: "\<exists>result. build_result doc = Inr result" for doc
    using malware_lookup_total [of doc] by (auto simp: build_result_def)
  show ?thesis
  proof (cases hash_arg)
    case None
    then show ?thesis by (simp add: malware_scrape_def)
  next
    case (Some apk_hash)
    show ?thesis
    proof (cases "apk_hash = []")
      case True
      with Some show ?thesis by (simp add: malware_scrape_def)
    next
      case False
      show ?thesis
      proof (cases "reports (apk_hash @ ''_static_analyzer.html'')")
        case Missing
        with Some False show ?thesis by (simp add: malware_scrape_def)
      next
        case Unopenable
        with Some False show ?thesis by (auto simp: malware_scrape_def)
      next
        case (Readable content)
        show ?thesis
        proof (cases "parse content")
          case None
          with Some False Readable show ?thesis by (auto simp: malware_scrape_def)
        next
          case doc: (Some doc)
          obtain result where "build_result doc = Inr result" using ok by blast
          with Some False Readable doc show ?thesis by (simp add: malware_scrape_def)
        qed
      qed
    qed
  qed
qed

theorem malware_scrape_failure_witness:
  "malware_scrape (\<lambda>name. Readable ''content'') (\<lambda>content. None) (Some ''h1'') = Inl ParseError \<and>
   malware_scrape (\<lambda>name. Unopenable) (\<lambda>content. Some []) (Some ''h1'') = Inl OSError \<and>
   malware_scrape (\<lambda>name. Readable []) (\<lambda>content. Some []) (Some ''h1'') \<noteq> Inl ParseError \<and>
   malware_scrape (\<lambda>name. Missing) (\<lambda>content. None) (Some ''h1'') \<noteq> Inl ParseError"
  using
    malware_scrape_failure [of "\<lambda>name. Readable ''content''" "\<lambda>content. None" "Some ''h1''" ParseError]
    malware_scrape_failure [of "\<lambda>name. Unopenable" "\<lambda>content. Some []" "Some ''h1''" OSError]
    malware_scrape_failure [of "\<lambda>name. Readable []" "\<lambda>content. Some []" "Some ''h1''" ParseError]
    malware_scrape_failure [of "\<lambda>name. Missing" "\<lambda>content. None" "Some ''h1''" ParseError]
  by simp

text \<open>
  Claim C3 as stated names the empty document as one that fails with \<open>ParseError\<close>, and
  this as the only failure beside a report that is not found. \<open>BeautifulSoup\<close> parses the
  empty text to the soup without contents, the document \<open>[]\<close>; on it the extraction
  returns the six defaults. So does the handler, even with a parser that accepts the
  empty text and nothing else. And a report path that exists and cannot be opened makes
  the handler raise before the parser runs.
\<close>

theorem empty_document_counterexample:
  "build_result [] =
     Inr [(''malware_lookup'', Lookup []),
          (''apkid_analysis'', Records []),
          (''behaviour_analysis'', Records []),
          (''domain_malware_check'', Records []),
          (''urls'', Records []),
          (''emails'', Records [])] \<and>
   build_result [] \<noteq> Inl ParseError \<and>
   malware_scrape (\<lambda>name. Readable []) (\<lambda>content. if content = [] then Some [] else None)
       (Some ''h1'') =
     Inr (Response 200
       (JObject
          [(''hash'', JString ''h1''),
           (''parsed_report'',
            JObject
              [(''malware_lookup'', JObject []),
               (''apkid_analysis'', JArray []),
               (''behaviour_analysis'', JArray []),
               (''domain_malware_check'', JArray []),
               (''urls'', JArray []),
               (''emails'', JArray [])])])) \<and>
   malware_scrape (\<lambda>name. Unopenable) (\<lambda>content. Some []) (Some ''h1'') = Inl OSError"
proof -
  have b: "build_result [] =
     Inr [(''malware_lookup'', Lookup []),
          (''apkid_analysis'', Records []),
          (''behaviour_analysis'', Records []),
          (''domain_malware_check'', Records []),
          (''urls'', Records []),
          (''emails'', Records [])]"
    by code_simp
  then show ?thesis
    by (simp add: malware_scrape_def json_of_result_def json_of_record_def)
qed

section \<open>Field names\<close>

text \<open>
  Claim C4, as amended. For a located table the field names are the header cells found
  anywhere below the table, in document order, row by row, each the concatenation of
  its stripped text strings, lowercased; so every name is lowercase and without
  surrounding whitespace, and the keys of an emitted record are the first names of that
  list. A header cell of a later row adds a field name like one of the first row.
\<close>

theorem field_names_all_header_cells:
  assumes "locate doc section_id ''table'' = Some table"
  shows "table_headers table =
           map (\<lambda>h. py_lower (get_text [] h)) (filter (is_tag ''th'') (descendants table)) \<and>
         (\<forall>name a rows. table = Tag name a rows \<longrightarrow>
            table_headers table =
              concat (map (\<lambda>row. map (\<lambda>h. py_lower (get_text [] h))
                                   (filter (is_tag ''th'') (elements row))) rows)) \<and>
         (\<forall>name \<in> set (table_headers table). py_lower name = name \<and> py_strip name = name) \<and>
         (\<forall>r \<in> set (extract_table doc section_id).
            \<exists>n. fst ` set r = set (take n (table_headers table)))"
proof (intro conjI)
  show "table_headers table =
           map (\<lambda>h. py_lower (get_text [] h)) (filter (is_tag ''th'') (descendants table))"
    by (simp add: table_headers_def find_all_def)
  show "\<forall>name a rows. table = Tag name a rows \<longrightarrow>
            table_headers table =
              concat (map (\<lambda>row. map (\<lambda>h. py_lower (get_text [] h))
                                   (filter (is_tag ''th'') (elements row))) rows)"
    by (simp add: table_headers_by_rows)
  show "\<forall>name \<in> set (table_headers table). py_lower name = name \<and> py_strip name = name"
    using table_header_clean by blast
  show "\<forall>r \<in> set (extract_table doc section_id).
            \<exists>n. fst ` set r = set (take n (table_headers table))"
  proof
    fix r
    assume "r \<in> set (extract_table doc section_id)"
    then obtain tr where "r = py_dict (zip (table_headers table) (row_cols tr))"
      using assms by (auto simp: extract_table_located)
    then have "fst ` set r = set (take (length (row_cols tr)) (table_headers table))"
      by (simp add: keys_py_dict_zip)
    then show "\<exists>n. fst ` set r = set (take n (table_headers table))" ..
  qed
qed

theorem field_names_all_header_cells_witness:
  "locate header_rows_doc ''urls'' ''table'' = Some (header_rows_doc ! 1) \<and>
   table_headers (header_rows_doc ! 1) = [''name'', ''extra''] \<and>
   py_strip ''extra'' = ''extra'' \<and> py_lower ''extra'' = ''extra''"
proof -
  have l: "locate header_rows_doc ''urls'' ''table'' = Some (header_rows_doc ! 1)"
    by code_simp
  have h: "map (\<lambda>h. py_lower (get_text [] h))
             (filter (is_tag ''th'') (descendants (header_rows_doc ! 1))) = [''name'', ''extra'']"
    by code_simp
  note t = field_names_all_header_cells [OF l]
  from t have "table_headers (header_rows_doc ! 1) =
      map (\<lambda>h. py_lower (get_text [] h)) (filter (is_tag ''th'') (descendants (header_rows_doc ! 1)))"
    by (rule conjunct1)
  then have hs: "table_headers (header_rows_doc ! 1) = [''name'', ''extra'']"
    by (simp only: h)
  from t have "\<forall>name \<in> set (table_headers (header_rows_doc ! 1)).
      py_lower name = name \<and> py_strip name = name"
    by (rule conjunct1 [OF conjunct2 [OF conjunct2]])
  then have "\<forall>name \<in> set [''name'', ''extra'']. py_lower name = name \<and> py_strip name = name"
    by (simp only: hs)
  then have "py_lower ''extra'' = ''extra'' \<and> py_strip ''extra'' = ''extra''"
    by (simp only: list.set ball_simps insert_iff)
  with l hs show ?thesis by blast
qed

text \<open>
  Claim C4 as stated takes the field names from the first row only. In
  \<open>header_rows_doc\<close> the header cell of the second row becomes the field name of the
  second data cell.
\<close>

theorem first_row_headers_counterexample:
  "locate header_rows_doc ''urls'' ''table'' = Some (header_rows_doc ! 1) \<and>
   first_row_headers (header_rows_doc ! 1) = [''name''] \<and>
   table_headers (header_rows_doc ! 1) = [''name'', ''extra''] \<and>
   extract_table header_rows_doc ''urls'' = [[(''name'', ''x''), (''extra'', ''y'')]]"
  by code_simp

section \<open>Pairing cells with field names\<close>

text \<open>
  Claim C5. The record of a data row pairs headers and cells up to the shorter of the two
  lists: with fewer cells than headers its keys are the first \<open>length cols\<close> headers,
  with more cells than headers the cells beyond the headers are dropped, and with
  distinct headers the record is exactly the list of the first \<open>n\<close> pairs. The record is
  there for every data row: no row makes the extraction fail.
\<close>

theorem row_pairing_shorter:
  assumes located: "locate doc section_id ''table'' = Some table"
    and i: "i < length (data_rows table)"
    and headers: "headers = table_headers table"
    and cols: "cols = row_cols (data_rows table ! i)"
    and n: "n = min (length headers) (length cols)"
    and r: "r = extract_table doc section_id ! i"
  shows "length (extract_table doc section_id) = length (data_rows table) \<and>
         r = py_dict (zip headers cols) \<and>
         r = py_dict (zip (take n headers) (take n cols)) \<and>
         fst ` set r = set (take (length cols) headers) \<and>
         set r \<subseteq> set (zip headers cols) \<and>
         (distinct (take n headers) \<longrightarrow> r = zip (take n headers) (take n cols))"
proof -
  have rows: "extract_table doc section_id =
     map (\<lambda>tr. py_dict (zip (table_headers table) (row_cols tr))) (data_rows table)"
    using located by (rule extract_table_located)
  have 1: "r = py_dict (zip headers cols)" using i by (simp add: r rows headers cols)
  have 2: "zip headers cols = zip (take n headers) (take n cols)"
    unfolding n by (rule zip_shorter)
  have 3: "distinct (map fst (zip (take n headers) (take n cols)))"
    if "distinct (take n headers)"
    using that by (simp only: map_fst_zip_take) (simp add: n min_def split: if_splits)
  show ?thesis
  proof (intro conjI impI)
    show "length (extract_table doc section_id) = length (data_rows table)"
      by (simp add: rows)
    show "r = py_dict (zip headers cols)" by (rule 1)
    show "r = py_dict (zip (take n headers) (take n cols))" using 1 2 by simp
    show "fst ` set r = set (take (length cols) headers)" by (simp add: 1 keys_py_dict_zip)
    show "set r \<subseteq> set (zip headers cols)" unfolding 1 by (rule py_dict_entries)
    show "r = zip (take n headers) (take n cols)" if "distinct (take n headers)"
      using 1 2 3 [OF that] by (simp add: py_dict_distinct)
  qed
qed

theorem row_pairing_shorter_witness:
  "locate ragged_doc ''urls'' ''table'' = Some (ragged_doc ! 1) \<and>
   table_headers (ragged_doc ! 1) = [''name'', ''url''] \<and>
   row_cols (data_rows (ragged_doc ! 1) ! 0) = [''a''] \<and>
   extract_table ragged_doc ''urls'' ! 0 = [(''name'', ''a'')] \<and>
   row_cols (data_rows (ragged_doc ! 1) ! 1) = [''b'', ''u'', ''extra''] \<and>
   extract_table ragged_doc ''urls'' ! 1 = [(''name'', ''b''), (''url'', ''u'')]"
proof -
  have l: "locate ragged_doc ''urls'' ''table'' = Some (ragged_doc ! 1)" by code_simp
  have i0: "0 < length (data_rows (ragged_doc ! 1))" by code_simp
  have i1: "1 < length (data_rows (ragged_doc ! 1))" by code_simp
  have h: "[''name'', ''url''] = table_headers (ragged_doc ! 1)" by code_simp
  have c0: "[''a''] = row_cols (data_rows (ragged_doc ! 1) ! 0)" by code_simp
  have c1: "[''b'', ''u'', ''extra''] = row_cols (data_rows (ragged_doc ! 1) ! 1)" by code_simp
  have n0: "(1::nat) = min (length [''name'', ''url'']) (length [''a''])" by simp
  have n1: "(2::nat) = min (length [''name'', ''url'']) (length [''b'', ''u'', ''extra''])" by simp
  have d0: "distinct (take 1 [''name'', ''url''])" by simp
  have d1: "distinct (take 2 [''name'', ''url''])" by simp
  have "extract_table ragged_doc ''urls'' ! 0 = zip (take 1 [''name'', ''url'']) (take 1 [''a''])"
    using row_pairing_shorter [OF l i0 h c0 n0 refl] d0 by blast
  then have r0: "extract_table ragged_doc ''urls'' ! 0 = [(''name'', ''a'')]" by simp
  have "extract_table ragged_doc ''urls'' ! 1 =
          zip (take 2 [''name'', ''url'']) (take 2 [''b'', ''u'', ''extra''])"
    using row_pairing_shorter [OF l i1 h c1 n1 refl] d1 by blast
  then have r1: "extract_table ragged_doc ''urls'' ! 1 = [(''name'', ''b''), (''url'', ''u'')]"
    by simp
  from l h [symmetric] c0 [symmetric] r0 c1 [symmetric] r1 show ?thesis by blast
qed

section \<open>Classification of the lookup links\<close>



section \<open>Order of the records\<close>

text \<open>
  Claim C7. The records of a located table are those of its rows after the first that
  have data cells, one record per such row, in the order of the rows: nothing is
  reordered and equal records are all kept. The output is a function of the located
  table alone (the source keeps no state between calls: \<open>result\<close> and \<open>rows\<close> are fresh
  in each), so extracting again, from this or any document that locates the same table,
  yields the identical output.
\<close>

theorem rows_in_source_order:
  assumes "locate doc section_id ''table'' = Some table"
  shows "extract_table doc section_id =
           map (\<lambda>tr. py_dict (zip (table_headers table) (row_cols tr)))
             (filter (\<lambda>tr. row_cols tr \<noteq> []) (drop 1 (find_all ''tr'' table))) \<and>
         (\<forall>other. locate other section_id ''table'' = Some table \<longrightarrow>
            extract_table other section_id = extract_table doc section_id)"
  using assms by (simp add: extract_table_located data_rows_def)

theorem rows_in_source_order_witness:
  "locate ragged_doc ''urls'' ''table'' = Some (ragged_doc ! 1) \<and>
   map row_cols (drop 1 (find_all ''tr'' (ragged_doc ! 1))) =
     [[''a''], [''b'', ''u'', ''extra''], [], [''b'', ''u'']] \<and>
   extract_table ragged_doc ''urls'' =
     [[(''name'', ''a'')], [(''name'', ''b''), (''url'', ''u'')],
      [(''name'', ''b''), (''url'', ''u'')]]"
proof -
  have l: "locate ragged_doc ''urls'' ''table'' = Some (ragged_doc ! 1)" by code_simp
  have c: "map row_cols (drop 1 (find_all ''tr'' (ragged_doc ! 1))) =
     [[''a''], [''b'', ''u'', ''extra''], [], [''b'', ''u'']]" by code_simp
  have m: "map (\<lambda>tr. py_dict (zip (table_headers (ragged_doc ! 1)) (row_cols tr)))
             (filter (\<lambda>tr. row_cols tr \<noteq> []) (drop 1 (find_all ''tr'' (ragged_doc ! 1)))) =
     [[(''name'', ''a'')], [(''name'', ''b''), (''url'', ''u'')],
      [(''name'', ''b''), (''url'', ''u'')]]" by code_simp
  from rows_in_source_order [OF l] have "extract_table ragged_doc ''urls'' =
           map (\<lambda>tr. py_dict (zip (table_headers (ragged_doc ! 1)) (row_cols tr)))
             (filter (\<lambda>tr. row_cols tr \<noteq> []) (drop 1 (find_all ''tr'' (ragged_doc ! 1))))"
    by (rule conjunct1)
  with l c m show ?thesis by (simp only:) 
qed

section \<open>Rows without data cells\<close>

text \<open>
  Claim C8. A row that yields no data cell is left out of the output: the output has
  one record per row with cells, and it is the output of the same rows with the
  cell-less row removed.
\<close>

theorem empty_rows_omitted:
  assumes "locate doc section_id ''table'' = Some table"
  shows "length (extract_table doc section_id) =
           length (filter (\<lambda>tr. row_cols tr \<noteq> []) (drop 1 (find_all ''tr'' table))) \<and>
         (\<forall>before tr rest.
            drop 1 (find_all ''tr'' table) = before @ tr # rest \<longrightarrow> row_cols tr = [] \<longrightarrow>
            extract_table doc section_id = collect_rows (table_headers table) (before @ rest) [])"
proof (intro conjI allI impI)
  show "length (extract_table doc section_id) =
           length (filter (\<lambda>tr. row_cols tr \<noteq> []) (drop 1 (find_all ''tr'' table)))"
    using assms by (simp add: extract_table_located data_rows_def)
next
  fix before tr rest
  assume "drop 1 (find_all ''tr'' table) = before @ tr # rest" and "row_cols tr = []"
  then show "extract_table doc section_id = collect_rows (table_headers table) (before @ rest) []"
    using assms by (simp add: extract_table_locate table_rows_def collect_rows_skip)
qed

theorem empty_rows_omitted_witness:
  "locate ragged_doc ''urls'' ''table'' = Some (ragged_doc ! 1) \<and>
   drop 1 (find_all ''tr'' (ragged_doc ! 1)) =
     take 2 (drop 1 (find_all ''tr'' (ragged_doc ! 1))) @ Tag ''tr'' [] [] #
     drop 3 (drop 1 (find_all ''tr'' (ragged_doc ! 1))) \<and>
   row_cols (Tag ''tr'' [] []) = [] \<and>
   length (drop 1 (find_all ''tr'' (ragged_doc ! 1))) = 4 \<and>
   length (extract_table ragged_doc ''urls'') = 3"
proof -
  have l: "locate ragged_doc ''urls'' ''table'' = Some (ragged_doc ! 1)" by code_simp
  have s: "drop 1 (find_all ''tr'' (ragged_doc ! 1)) =
     take 2 (drop 1 (find_all ''tr'' (ragged_doc ! 1))) @ Tag ''tr'' [] [] #
     drop 3 (drop 1 (find_all ''tr'' (ragged_doc ! 1)))" by code_simp
  have e: "row_cols (Tag ''tr'' [] []) = []" by code_simp
  have n: "length (drop 1 (find_all ''tr'' (ragged_doc ! 1))) = 4" by code_simp
  have k: "length (filter (\<lambda>tr. row_cols tr \<noteq> []) (drop 1 (find_all ''tr'' (ragged_doc ! 1)))) = 3"
    by code_simp
  from empty_rows_omitted [OF l] have "length (extract_table ragged_doc ''urls'') =
     length (filter (\<lambda>tr. row_cols tr \<noteq> []) (drop 1 (find_all ''tr'' (ragged_doc ! 1))))"
    by (rule conjunct1)
  then have "length (extract_table ragged_doc ''urls'') = 3" by (simp only: k)
  with l s e n show ?thesis by blast
qed

section \<open>Text of a data cell\<close>

text \<open>
  Claim C9, as amended. Every emitted record belongs to a row of the located table that
  has data cells, and pairs the field names, by position, with the texts of that row's
  data cells; the text of a cell is the text strings below it, each stripped, the empty
  ones dropped, joined by single spaces. So every value of the record is the text of one
  of the data cells of its own row, and has no surrounding whitespace. The whitespace
  inside a text string is kept as it is: a cell holding one text string yields that
  string stripped. The minimal document yields the single record \<open>url\<close>:
  \<open>http://x.test\<close>.
\<close>

theorem cell_text_stripped_pieces:
  "(\<forall>r \<in> set (extract_table doc section_id).
      \<exists>table tr.
        locate doc section_id ''table'' = Some table \<and>
        tr \<in> set (drop 1 (find_all ''tr'' table)) \<and>
        find_all ''td'' tr \<noteq> [] \<and>
        r = py_dict (zip (table_headers table)
              (map (\<lambda>td. join '' '' (filter (\<lambda>s. s \<noteq> []) (map py_strip (all_strings td))))
                 (find_all ''td'' tr))) \<and>
        (\<forall>v \<in> snd ` set r.
           py_strip v = v \<and>
           (\<exists>td \<in> set (find_all ''td'' tr).
              v = join '' '' (filter (\<lambda>s. s \<noteq> []) (map py_strip (all_strings td)))))) \<and>
   row_cols (Tag ''tr'' a [Tag ''td'' b [NavigableString s]]) = [py_strip s] \<and>
   extract_table minimal_doc ''urls'' = [[(''url'', ''http://x.test'')]]"
proof (intro conjI ballI)
  fix r
  assume "r \<in> set (extract_table doc section_id)"
  then obtain table tr where
    l: "locate doc section_id ''table'' = Some table" and
    tr: "tr \<in> set (data_rows table)" and
    r: "r = py_dict (zip (table_headers table) (row_cols tr))"
    using extract_table_record by blast
  have cols: "row_cols tr =
      map (\<lambda>td. join '' '' (filter (\<lambda>s. s \<noteq> []) (map py_strip (all_strings td))))
        (find_all ''td'' tr)"
    by (simp add: row_cols_def get_text_def)
  have row: "tr \<in> set (drop 1 (find_all ''tr'' table))" and cells: "find_all ''td'' tr \<noteq> []"
    using tr by (auto simp: data_rows_def row_cols_def)
  have "py_strip v = v \<and>
        (\<exists>td \<in> set (find_all ''td'' tr).
           v = join '' '' (filter (\<lambda>s. s \<noteq> []) (map py_strip (all_strings td))))"
    if v: "v \<in> snd ` set r" for v
  proof -
    from v have "v \<in> snd ` set (zip (table_headers table) (row_cols tr))"
      using py_dict_entries [of "zip (table_headers table) (row_cols tr)"] by (auto simp: r)
    then have "v \<in> set (row_cols tr)" by (auto dest: set_zip_rightD)
    then obtain td where td: "td \<in> set (find_all ''td'' tr)" "v = get_text '' '' td"
      by (auto simp: row_cols_def)
    have "py_strip v = v" unfolding td(2) by (rule py_strip_get_text)
    moreover have "v = join '' '' (filter (\<lambda>s. s \<noteq> []) (map py_strip (all_strings td)))"
      using td(2) by (simp add: get_text_def)
    ultimately show ?thesis using td(1) by blast
  qed
  then have vals: "\<forall>v \<in> snd ` set r.
           py_strip v = v \<and>
           (\<exists>td \<in> set (find_all ''td'' tr).
              v = join '' '' (filter (\<lambda>s. s \<noteq> []) (map py_strip (all_strings td))))"
    by blast
  have r': "r = py_dict (zip (table_headers table)
              (map (\<lambda>td. join '' '' (filter (\<lambda>s. s \<noteq> []) (map py_strip (all_strings td))))
                 (find_all ''td'' tr)))"
    using r by (simp only: cols)
  have "locate doc section_id ''table'' = Some table \<and>
        tr \<in> set (drop 1 (find_all ''tr'' table)) \<and>
        find_all ''td'' tr \<noteq> [] \<and>
        r = py_dict (zip (table_headers table)
              (map (\<lambda>td. join '' '' (filter (\<lambda>s. s \<noteq> []) (map py_strip (all_strings td))))
                 (find_all ''td'' tr))) \<and>
        (\<forall>v \<in> snd ` set r.
           py_strip v = v \<and>
           (\<exists>td \<in> set (find_all ''td'' tr).
              v = join '' '' (filter (\<lambda>s. s \<noteq> []) (map py_strip (all_strings td)))))"
    using l row cells r' vals by (intro conjI)
  then show "\<exists>table tr.
        locate doc section_id ''table'' = Some table \<and>
        tr \<in> set (drop 1 (find_all ''tr'' table)) \<and>
        find_all ''td'' tr \<noteq> [] \<and>
        r = py_dict (zip (table_headers table)
              (map (\<lambda>td. join '' '' (filter (\<lambda>s. s \<noteq> []) (map py_strip (all_strings td))))
                 (find_all ''td'' tr))) \<and>
        (\<forall>v \<in> snd ` set r.
           py_strip v = v \<and>
           (\<exists>td \<in> set (find_all ''td'' tr).
              v = join '' '' (filter (\<lambda>s. s \<noteq> []) (map py_strip (all_strings td)))))"
    by (intro exI)
next
  show "row_cols (Tag ''tr'' a [Tag ''td'' b [NavigableString s]]) = [py_strip s]"
    by (simp add: row_cols_def find_all_def get_text_single)
next
  show "extract_table minimal_doc ''urls'' = [[(''url'', ''http://x.test'')]]" by code_simp
qed

theorem cell_text_stripped_pieces_witness:
  "extract_table inner_spaces_doc ''urls'' = [[(''url'', ''a  b'')]] \<and>
   locate inner_spaces_doc ''urls'' ''table'' = Some (inner_spaces_doc ! 1) \<and>
   map (find_all ''td'') (drop 1 (find_all ''tr'' (inner_spaces_doc ! 1))) =
     [[Tag ''td'' [] [NavigableString '' a  b '']]] \<and>
   join '' '' (filter (\<lambda>s. s \<noteq> [])
       (map py_strip (all_strings (Tag ''td'' [] [NavigableString '' a  b ''])))) = ''a  b'' \<and>
   py_strip ''a  b'' = ''a  b'' \<and>
   row_cols (Tag ''tr'' [] [Tag ''td'' [] [NavigableString '' a  b '']]) = [''a  b'']"
proof -
  have e: "extract_table inner_spaces_doc ''urls'' = [[(''url'', ''a  b'')]]" by code_simp
  have l: "locate inner_spaces_doc ''urls'' ''table'' = Some (inner_spaces_doc ! 1)" by code_simp
  have c: "map (find_all ''td'') (drop 1 (find_all ''tr'' (inner_spaces_doc ! 1))) =
     [[Tag ''td'' [] [NavigableString '' a  b '']]]" by code_simp
  have j: "join '' '' (filter (\<lambda>s. s \<noteq> [])
       (map py_strip (all_strings (Tag ''td'' [] [NavigableString '' a  b ''])))) = ''a  b''"
    by code_simp
  have p: "py_strip '' a  b '' = ''a  b''" by code_simp
  note t = cell_text_stripped_pieces [of inner_spaces_doc "''urls''" "[]" "[]" "'' a  b ''"]
  have mem: "[(''url'', ''a  b'')] \<in> set (extract_table inner_spaces_doc ''urls'')"
    by (simp only: e list.set insert_iff) simp
  from bspec [OF conjunct1 [OF t] mem] obtain table tr where
    "\<forall>v \<in> snd ` set [(''url'', ''a  b'')].
       py_strip v = v \<and>
       (\<exists>td \<in> set (find_all ''td'' tr).
          v = join '' '' (filter (\<lambda>s. s \<noteq> []) (map py_strip (all_strings td))))"
    by blast
  then have 1: "py_strip ''a  b'' = ''a  b''" by simp
  from t have "row_cols (Tag ''tr'' [] [Tag ''td'' [] [NavigableString '' a  b '']]) =
                 [py_strip '' a  b '']"
    by (rule conjunct1 [OF conjunct2])
  then have 2: "row_cols (Tag ''tr'' [] [Tag ''td'' [] [NavigableString '' a  b '']]) = [''a  b'']"
    by (simp only: p)
  from e l c j 1 2 show ?thesis by blast
qed

text \<open>
  Claim C9 as stated has internal whitespace runs collapsed to single spaces. The cell
  text \<open>a  b\<close>, two spaces inside, is emitted with both.
\<close>

theorem inner_whitespace_counterexample:
  "extract_table inner_spaces_doc ''urls'' = [[(''url'', ''a  b'')]] \<and>
   normalize_whitespace '' a  b '' = ''a b'' \<and>
   normalize_whitespace ''a  b'' \<noteq> ''a  b''"
  by code_simp

section \<open>Tables without header cells\<close>

text \<open>
  Claim C10. A located table without any header cell yields one empty record for each
  row after the first that has a data cell; the text of the cells appears nowhere in the
  output.
\<close>

theorem headerless_table_empty_records:
  assumes "locate doc section_id ''table'' = Some table"
    and "find_all ''th'' table = []"
  shows "extract_table doc section_id =
           replicate (length (filter (\<lambda>tr. row_cols tr \<noteq> []) (drop 1 (find_all ''tr'' table)))) []"
proof -
  have "table_headers table = []" using assms(2) by (simp add: table_headers_def)
  then show ?thesis
    using assms(1)
    by (simp add: extract_table_located data_rows_def py_dict_def map_replicate_const)
qed

theorem headerless_table_empty_records_witness:
  "locate headerless_doc ''emails'' ''table'' = Some (headerless_doc ! 1) \<and>
   find_all ''th'' (headerless_doc ! 1) = [] \<and>
   map row_cols (drop 1 (find_all ''tr'' (headerless_doc ! 1))) = [[''x'', ''y''], [], [''z'']] \<and>
   extract_table headerless_doc ''emails'' = [[], []]"
proof -
  have l: "locate headerless_doc ''emails'' ''table'' = Some (headerless_doc ! 1)" by code_simp
  have h: "find_all ''th'' (headerless_doc ! 1) = []" by code_simp
  have c: "map row_cols (drop 1 (find_all ''tr'' (headerless_doc ! 1))) = [[''x'', ''y''], [], [''z'']]"
    by code_simp
  have k: "replicate (length (filter (\<lambda>tr. row_cols tr \<noteq> [])
             (drop 1 (find_all ''tr'' (headerless_doc ! 1))))) ([] :: string dict) = [[], []]"
    by code_simp
  from headerless_table_empty_records [OF l h] k
  have "extract_table headerless_doc ''emails'' = [[], []]" by (simp only:)
  with l h c show ?thesis by blast
qed

end
